theory Spec2Isabelle
  imports Complex_Main
begin

section \<open>Python values\<close>

text \<open>
  The bot reads JSON: its configuration file and the bodies of two web services. Python's
  \<open>json\<close> module turns a document into \<open>None\<close>, \<open>bool\<close>, \<open>int\<close>, \<open>float\<close>, \<open>str\<close>,
  \<open>list\<close> and \<open>dict\<close> values, and the source never checks more of their type than it
  needs, so the model carries the values as they are and writes out every failure of a
  method call on the wrong kind of value.

  A \<open>dict\<close> is an association list in insertion order, read with \<open>map_of\<close>; the keys of a
  parsed document are distinct. A \<open>str\<close> is the list of its code points, and a \<open>char\<close> of
  the model is a code point below 256 (Latin-1): a string with a code point from 256 on
  is not a value of the model. Of a \<open>float\<close> only its truth value is ever used.
\<close>

datatype pyfloat = Finite rat | PosInf | NegInf | NaN

datatype json =
    JNull
  | JBool bool
  | JInt int
  | JFloat pyfloat
  | JStr string
  | JList "json list"
  | JDict "(string \<times> json) list"

text \<open>
  The exceptions the code can meet. \<open>ClientError\<close> stands for \<open>aiohttp.ClientError\<close> and
  its subclasses (a refused connection, the \<open>ClientResponseError\<close> of
  \<open>raise_for_status\<close>, a wrong content type), \<open>TimeoutError\<close> for
  \<open>asyncio.TimeoutError\<close>, \<open>ValueError\<close> also for \<open>json.JSONDecodeError\<close>.
\<close>

datatype exn =
    ClientError
  | TimeoutError
  | AttributeError
  | TypeError
  | ValueError
  | FileNotFoundError
  | OSError

text \<open>Python's truth value of an object, as \<open>if x:\<close>, \<open>not x\<close> and \<open>x or y\<close> test it.\<close>

fun truthy :: "json \<Rightarrow> bool" where
  "truthy JNull = False"
| "truthy (JBool b) = b"
| "truthy (JInt i) = (i \<noteq> 0)"
| "truthy (JFloat f) = (f \<noteq> Finite 0)"
| "truthy (JStr s) = (s \<noteq> [])"
| "truthy (JList xs) = (xs \<noteq> [])"
| "truthy (JDict kvs) = (kvs \<noteq> [])"

text \<open>\<open>x or y\<close>\<close>

definition py_or :: "json \<Rightarrow> json \<Rightarrow> json" where
  "py_or x y = (if truthy x then x else y)"

text \<open>
  \<open>obj.get(key, default)\<close>: only a \<open>dict\<close> has the method; on any other value the
  attribute lookup raises \<open>AttributeError\<close>.
\<close>

fun dict_get :: "json \<Rightarrow> string \<Rightarrow> json \<Rightarrow> exn + json" where
  "dict_get (JDict kvs) key dflt =
     Inr (case map_of kvs key of None \<Rightarrow> dflt | Some v \<Rightarrow> v)"
| "dict_get _ key dflt = Inl AttributeError"

text \<open>
  \<open>for entry in obj\<close>: a list yields its elements, a string its characters, a dict its
  keys; \<open>None\<close>, booleans and numbers are not iterable and raise \<open>TypeError\<close>.
\<close>

fun py_iter :: "json \<Rightarrow> exn + json list" where
  "py_iter (JList xs) = Inr xs"
| "py_iter (JStr s) = Inr (map (\<lambda>c. JStr [c]) s)"
| "py_iter (JDict kvs) = Inr (map (\<lambda>kv. JStr (fst kv)) kvs)"
| "py_iter _ = Inl TypeError"

text \<open>\<open>isinstance(v, int)\<close> with the integer's value: \<open>bool\<close> is a subclass of \<open>int\<close>.\<close>

fun as_int :: "json \<Rightarrow> int option" where
  "as_int (JInt i) = Some i"
| "as_int (JBool b) = Some (if b then 1 else 0)"
| "as_int _ = None"

subsection \<open>Strings\<close>

text \<open>
  \<open>str.lower\<close> on one code point below 256: the capital letters \<open>A\<close> to \<open>Z\<close> (65 to 90)
  and those of Latin-1 (192 to 214 and 216 to 222) have their small letter 32 places up;
  no other code point below 256 changes, and on a string of such code points
  \<open>str.lower\<close> works code point by code point.
\<close>

definition lower_char :: "char \<Rightarrow> char" where
  "lower_char c =
     (let n = (of_char c :: nat)
      in if (65 \<le> n \<and> n \<le> 90) \<or> (192 \<le> n \<and> n \<le> 214) \<or> (216 \<le> n \<and> n \<le> 222)
         then char_of (n + 32) else c)"

text \<open>\<open>s.lower()\<close>\<close>

definition lower :: "string \<Rightarrow> string" where
  "lower s = map lower_char s"

text \<open>\<open>s.replace("-", "")\<close>\<close>

definition strip_hyphens :: "string \<Rightarrow> string" where
  "strip_hyphens s = filter (\<lambda>c. c \<noteq> CHR ''-'') s"

text \<open>\<open>v.lower()\<close> on a value that need not be a string.\<close>

fun lower_val :: "json \<Rightarrow> exn + string" where
  "lower_val (JStr s) = Inr (lower s)"
| "lower_val _ = Inl AttributeError"

text \<open>
  A comprehension \<open>{f(x) for x in xs}\<close> calls \<open>f\<close> on the elements from left to right and
  stops at the first exception.
\<close>

fun map_exn :: "('a \<Rightarrow> exn + 'b) \<Rightarrow> 'a list \<Rightarrow> exn + 'b list" where
  "map_exn f [] = Inr []"
| "map_exn f (x # xs) =
     (case f x of
        Inl e \<Rightarrow> Inl e
      | Inr y \<Rightarrow> (case map_exn f xs of Inl e \<Rightarrow> Inl e | Inr ys \<Rightarrow> Inr (y # ys)))"

section \<open>normalize\_uuid\<close>

text \<open>
  \<^verbatim>\<open>
  def normalize_uuid(value: str) -> str:
      return value.replace("-", "").lower()
  \<close>
\<close>

definition normalize_uuid :: "string \<Rightarrow> string" where
  "normalize_uuid value = lower (strip_hyphens value)"

text \<open>The same call on a value that need not be a string: only \<open>str\<close> has \<open>replace\<close>.\<close>

fun normalize_uuid_val :: "json \<Rightarrow> exn + string" where
  "normalize_uuid_val (JStr s) = Inr (normalize_uuid s)"
| "normalize_uuid_val _ = Inl AttributeError"

text \<open>
  The standard grouping of 32 characters into 8-4-4-4-12, as the spec writes the
  hyphenated form of an identifier.
\<close>

definition hyphenate :: "string \<Rightarrow> string" where
  "hyphenate h =
     take 8 h @ ''-'' @ take 4 (drop 8 h) @ ''-'' @ take 4 (drop 12 h) @ ''-''
       @ take 4 (drop 16 h) @ ''-'' @ drop 20 h"

section \<open>extract\_players\<close>

text \<open>
  \<^verbatim>\<open>
  def extract_players(payload):
      players = payload.get("players", {})
      names = []
      for entry in players.get("list") or []:
          if isinstance(entry, dict):
              name = entry.get("name")
              if name:
                  names.append(name)
          elif isinstance(entry, str):
              names.append(entry)
      uuids = []
      for entry in players.get("uuid", []) or []:
          if isinstance(entry, dict):
              raw_uuid = entry.get("uuid") or ""
              if raw_uuid:
                  uuids.append(raw_uuid)
          elif isinstance(entry, str):
              uuids.append(entry)
      return names, uuids
  \<close>
  One pass of either loop over one entry: what it appends.
\<close>

fun entry_value :: "string \<Rightarrow> json \<Rightarrow> json list" where
  "entry_value key (JDict kvs) =
     (case map_of kvs key of
        None \<Rightarrow> []
      | Some v \<Rightarrow> (if truthy v then [v] else []))"
| "entry_value key (JStr s) = [JStr s]"
| "entry_value key _ = []"

definition collect :: "string \<Rightarrow> json list \<Rightarrow> json list" where
  "collect key entries = concat (map (entry_value key) entries)"

definition extract_players :: "json \<Rightarrow> exn + (json list \<times> json list)" where
  "extract_players payload =
     (case dict_get payload ''players'' (JDict []) of
        Inl e \<Rightarrow> Inl e
      | Inr players \<Rightarrow>
          (case dict_get players ''list'' JNull of
             Inl e \<Rightarrow> Inl e
           | Inr l \<Rightarrow>
               (case py_iter (py_or l (JList [])) of
                  Inl e \<Rightarrow> Inl e
                | Inr list_entries \<Rightarrow>
                    (case dict_get players ''uuid'' (JList []) of
                       Inl e \<Rightarrow> Inl e
                     | Inr u \<Rightarrow>
                         (case py_iter (py_or u (JList [])) of
                            Inl e \<Rightarrow> Inl e
                          | Inr uuid_entries \<Rightarrow>
                              Inr (collect ''name'' list_entries,
                                   collect ''uuid'' uuid_entries))))))"

text \<open>
  The shape of payload that \<open>extract_players\<close> is written for. \<open>roster_field\<close> reads
  \<open>payload["players"][key]\<close> where it is there (\<open>None\<close> otherwise), \<open>iter_ok\<close> holds of
  a value that \<open>for entry in value or []\<close> can walk: a falsy one, or a list, string or dict.
\<close>

definition roster_field :: "json \<Rightarrow> string \<Rightarrow> json" where
  "roster_field payload key =
     (case payload of
        JDict kvs \<Rightarrow>
          (case map_of kvs ''players'' of
             Some (JDict pkvs) \<Rightarrow> (case map_of pkvs key of None \<Rightarrow> JNull | Some v \<Rightarrow> v)
           | _ \<Rightarrow> JNull)
      | _ \<Rightarrow> JNull)"

fun iter_ok :: "json \<Rightarrow> bool" where
  "iter_ok (JList xs) = True"
| "iter_ok (JStr s) = True"
| "iter_ok (JDict kvs) = True"
| "iter_ok v = (\<not> truthy v)"

definition players_ok :: "json \<Rightarrow> bool" where
  "players_ok payload =
     (case payload of
        JDict kvs \<Rightarrow>
          (case map_of kvs ''players'' of
             None \<Rightarrow> True
           | Some (JDict pkvs) \<Rightarrow> True
           | Some _ \<Rightarrow> False)
      | _ \<Rightarrow> False)"

definition roster_shape :: "json \<Rightarrow> bool" where
  "roster_shape payload \<longleftrightarrow>
     players_ok payload
     \<and> iter_ok (roster_field payload ''list'')
     \<and> iter_ok (roster_field payload ''uuid'')"

text \<open>The entries a loop \<open>for entry in value or []\<close> visits.\<close>

definition entries_of :: "json \<Rightarrow> json list" where
  "entries_of v = (case py_iter (py_or v (JList [])) of Inl e \<Rightarrow> [] | Inr xs \<Rightarrow> xs)"

fun is_str :: "json \<Rightarrow> bool" where
  "is_str (JStr s) = True"
| "is_str _ = False"

section \<open>load\_config\<close>

record ServerTarget =
  name :: json
  address :: json

record BotConfig =
  token :: json
  servers :: "ServerTarget list"
  request_timeout_seconds :: json
  max_concurrency :: int

text \<open>
  The fields hold what the configuration file held: \<open>load_config\<close> checks that the token,
  a server's name and its address are truthy, not that they are strings, and it does not
  look at \<open>request_timeout_seconds\<close>. \<open>max_concurrency\<close> is an \<open>int\<close> when
  \<open>load_config\<close> returns (a JSON \<open>true\<close> passes \<open>isinstance(_, int)\<close> and is the
  integer 1).

  The file system is what \<open>load_config\<close> sees of it: \<open>None\<close> where
  \<open>os.path.exists\<close> is false, otherwise what \<open>open\<close> and \<open>json.load\<close> give, an
  exception or the parsed document.

  \<^verbatim>\<open>
  def load_config(path: str) -> BotConfig:
      if not os.path.exists(path):
          raise FileNotFoundError(...)
      with open(path, "r", encoding="utf-8") as handle:
          raw = json.load(handle)
      servers_raw = raw.get("servers", [])
      servers = [
          ServerTarget(name=entry["name"], address=entry["address"])
          for entry in servers_raw
          if isinstance(entry, dict) and entry.get("name") and entry.get("address")
      ]
      token = raw.get("discord_token")
      if not token:
          raise ValueError("Campo 'discord_token' ausente no config.json.")
      max_concurrency = raw.get("max_concurrency", 8)
      if not isinstance(max_concurrency, int) or max_concurrency < 1:
          max_concurrency = 1
      return BotConfig(
          token=token,
          servers=servers,
          request_timeout_seconds=raw.get("request_timeout_seconds", 10),
          max_concurrency=max_concurrency,
      )
  \<close>
\<close>

type_synonym filesystem = "string \<Rightarrow> (exn + json) option"

fun server_entry :: "json \<Rightarrow> ServerTarget list" where
  "server_entry (JDict kvs) =
     (case map_of kvs ''name'' of
        None \<Rightarrow> []
      | Some n \<Rightarrow>
          (case map_of kvs ''address'' of
             None \<Rightarrow> []
           | Some a \<Rightarrow>
               (if truthy n \<and> truthy a then [\<lparr>name = n, address = a\<rparr>] else [])))"
| "server_entry _ = []"

definition coerce_concurrency :: "json \<Rightarrow> int" where
  "coerce_concurrency v =
     (case as_int v of
        None \<Rightarrow> 1
      | Some n \<Rightarrow> (if n < 1 then 1 else n))"

definition load_config :: "filesystem \<Rightarrow> string \<Rightarrow> exn + BotConfig" where
  "load_config fs path =
     (case fs path of
        None \<Rightarrow> Inl FileNotFoundError
      | Some (Inl e) \<Rightarrow> Inl e
      | Some (Inr raw) \<Rightarrow>
          (case dict_get raw ''servers'' (JList []) of
             Inl e \<Rightarrow> Inl e
           | Inr servers_raw \<Rightarrow>
               (case py_iter servers_raw of
                  Inl e \<Rightarrow> Inl e
                | Inr entries \<Rightarrow>
                    (case dict_get raw ''discord_token'' JNull of
                       Inl e \<Rightarrow> Inl e
                     | Inr tok \<Rightarrow>
                         (if \<not> truthy tok then Inl ValueError
                          else
                            (case dict_get raw ''max_concurrency'' (JInt 8) of
                               Inl e \<Rightarrow> Inl e
                             | Inr mc \<Rightarrow>
                                 (case dict_get raw ''request_timeout_seconds'' (JInt 10) of
                                    Inl e \<Rightarrow> Inl e
                                  | Inr rt \<Rightarrow>
                                      Inr \<lparr>token = tok,
                                           servers = concat (map server_entry entries),
                                           request_timeout_seconds = rt,
                                           max_concurrency = coerce_concurrency mc\<rparr>)))))))"

text \<open>A file system holding one file, parsed.\<close>

definition single_file :: "string \<Rightarrow> json \<Rightarrow> filesystem" where
  "single_file p doc q = (if q = p then Some (Inr doc) else None)"

section \<open>UUID\_REGEX\<close>

text \<open>
  \<^verbatim>\<open>
  UUID_REGEX = re.compile(
      r"^[0-9a-fA-F]{32}$|^[0-9a-fA-F]{8}-[0-9a-fA-F]{4}-"
      r"[0-9a-fA-F]{4}-[0-9a-fA-F]{4}-[0-9a-fA-F]{12}$"
  )
  \<close>
  Either alternative is a sequence of pieces of fixed width, a run of hexadecimal digits
  or one literal character, so matching it from the start of the string needs no
  backtracking: each piece either consumes its characters or the alternative fails.
\<close>

definition is_hex :: "char \<Rightarrow> bool" where
  "is_hex c =
     (let n = (of_char c :: nat)
      in (48 \<le> n \<and> n \<le> 57) \<or> (97 \<le> n \<and> n \<le> 102) \<or> (65 \<le> n \<and> n \<le> 70))"

datatype piece = Hex nat | Lit char

fun match_piece :: "piece \<Rightarrow> string \<Rightarrow> string option" where
  "match_piece (Hex n) s =
     (if n \<le> length s \<and> list_all is_hex (take n s) then Some (drop n s) else None)"
| "match_piece (Lit c) [] = None"
| "match_piece (Lit c) (d # s) = (if d = c then Some s else None)"

fun match_pieces :: "piece list \<Rightarrow> string \<Rightarrow> string option" where
  "match_pieces [] s = Some s"
| "match_pieces (p # ps) s =
     (case match_piece p s of None \<Rightarrow> None | Some r \<Rightarrow> match_pieces ps r)"

text \<open>
  \<open>$\<close> without \<open>re.MULTILINE\<close>: Python matches it at the end of the string and also just
  before a newline that is the last character of the string.
\<close>

definition at_dollar :: "string \<Rightarrow> bool" where
  "at_dollar r \<longleftrightarrow> r = [] \<or> r = [CHR 0x0A]"

definition match_alternative :: "piece list \<Rightarrow> string \<Rightarrow> bool" where
  "match_alternative ps s =
     (case match_pieces ps s of None \<Rightarrow> False | Some r \<Rightarrow> at_dollar r)"

definition plain_pattern :: "piece list" where
  "plain_pattern = [Hex 32]"

definition hyphenated_pattern :: "piece list" where
  "hyphenated_pattern =
     [Hex 8, Lit CHR ''-'', Hex 4, Lit CHR ''-'', Hex 4, Lit CHR ''-'', Hex 4, Lit CHR ''-'',
      Hex 12]"

text \<open>\<open>UUID_REGEX.match(s)\<close>, as a truth value.\<close>

definition UUID_REGEX_match :: "string \<Rightarrow> bool" where
  "UUID_REGEX_match s \<longleftrightarrow>
     match_alternative plain_pattern s \<or> match_alternative hyphenated_pattern s"

text \<open>
  The format in the spec's words: 32 hexadecimal characters, unhyphenated or hyphenated
  in the standard 8-4-4-4-12 grouping.
\<close>

definition is_canonical_id_format :: "string \<Rightarrow> bool" where
  "is_canonical_id_format s =
     (let h = strip_hyphens s
      in length h = 32 \<and> list_all is_hex h \<and> (s = h \<or> s = hyphenate h))"

text \<open>An identifier without hyphens: 32 hexadecimal characters.\<close>

definition plain_id :: "string \<Rightarrow> bool" where
  "plain_id h \<longleftrightarrow> length h = 32 \<and> list_all is_hex h"

section \<open>The web services\<close>

text \<open>
  What \<open>session.get(url)\<close> gives: an exception raised by the request, or a response with
  its status and what \<open>await response.json()\<close> gives on it, an exception or the parsed
  body. \<open>raise_for_status\<close> is aiohttp's: it raises \<open>ClientResponseError\<close> when the
  status is 400 or more.

  The session is the part of the network the command sees: the answer of the directory
  service to \<open>GET https://api.mojang.com/users/profiles/minecraft/{name}\<close>, by name, and
  the answer of the status service to the request
  \<open>GET https://api.mcsrvstat.us/2/{address}\<close> that the task of the \<open>i\<close>-th target makes,
  by \<open>i\<close> and address (two targets with one address may be answered differently).
\<close>

datatype http_result = GetRaises exn | Response nat "exn + json"

record session =
  mojang :: "string \<Rightarrow> http_result"
  mcsrvstat :: "nat \<Rightarrow> json \<Rightarrow> http_result"

text \<open>
  \<^verbatim>\<open>
  async def fetch_json(session, url):
      async with session.get(url) as response:
          response.raise_for_status()
          return await response.json()
  \<close>
\<close>

fun fetch_json :: "http_result \<Rightarrow> exn + json" where
  "fetch_json (GetRaises e) = Inl e"
| "fetch_json (Response status body) = (if 400 \<le> status then Inl ClientError else body)"

text \<open>
  \<^verbatim>\<open>
  async def fetch_uuid_for_name(session, name):
      url = f"https://api.mojang.com/users/profiles/minecraft/{name}"
      async with session.get(url) as response:
          if response.status == 204:
              return None
          response.raise_for_status()
          data = await response.json()
      return data.get("id")
  \<close>
\<close>

definition fetch_uuid_for_name :: "session \<Rightarrow> string \<Rightarrow> exn + json" where
  "fetch_uuid_for_name session nm =
     (case mojang session nm of
        GetRaises e \<Rightarrow> Inl e
      | Response status body \<Rightarrow>
          (if status = 204 then Inr JNull
           else if 400 \<le> status then Inl ClientError
           else (case body of Inl e \<Rightarrow> Inl e | Inr data \<Rightarrow> dict_get data ''id'' JNull)))"

text \<open>
  \<^verbatim>\<open>
  async def fetch_server_status(session, address):
      url = f"https://api.mcsrvstat.us/2/{address}"
      return await fetch_json(session, url)
  \<close>
\<close>

definition fetch_server_status :: "session \<Rightarrow> nat \<Rightarrow> json \<Rightarrow> exn + json" where
  "fetch_server_status session i addr = fetch_json (mcsrvstat session i addr)"

section \<open>find\_player\_servers\<close>

text \<open>
  \<^verbatim>\<open>
  async def find_player_servers(session, targets, player_name, player_uuid, max_concurrency):
      matches: list[ServerTarget] = []
      semaphore = asyncio.Semaphore(max_concurrency)

      async def check_server(target: ServerTarget) -> None:
          async with semaphore:
              try:
                  payload = await fetch_server_status(session, target.address)
              except (aiohttp.ClientError, asyncio.TimeoutError):
                  return
              if not payload.get("online"):
                  return
              names, uuids = extract_players(payload)
              if player_name.lower() in {name.lower() for name in names}:
                  matches.append(target)
                  return
              if player_uuid:
                  normalized = normalize_uuid(player_uuid)
                  if normalized in {normalize_uuid(uuid) for uuid in uuids}:
                      matches.append(target)

      await asyncio.gather(*(check_server(target) for target in targets))
      return matches
  \<close>
  \<open>check_server\<close> returns whether it appended its target, or the exception that leaves
  it. \<open>player_uuid\<close> is \<open>None\<close>, the input string or whatever the directory service
  sent as \<open>id\<close>. The parameter \<open>max_concurrency\<close> is written \<open>max_conc\<close>, the name being
  the configuration's field.
\<close>

definition check_server ::
    "session \<Rightarrow> string \<Rightarrow> json \<Rightarrow> nat \<Rightarrow> ServerTarget \<Rightarrow> exn + bool" where
  "check_server session player_name player_uuid i target =
     (case fetch_server_status session i (address target) of
        Inl e \<Rightarrow> (if e = ClientError \<or> e = TimeoutError then Inr False else Inl e)
      | Inr payload \<Rightarrow>
          (case dict_get payload ''online'' JNull of
             Inl e \<Rightarrow> Inl e
           | Inr online \<Rightarrow>
               (if \<not> truthy online then Inr False
                else
                  (case extract_players payload of
                     Inl e \<Rightarrow> Inl e
                   | Inr (names, uuids) \<Rightarrow>
                       (case map_exn lower_val names of
                          Inl e \<Rightarrow> Inl e
                        | Inr lowered \<Rightarrow>
                            (if lower player_name \<in> set lowered then Inr True
                             else if truthy player_uuid then
                               (case normalize_uuid_val player_uuid of
                                  Inl e \<Rightarrow> Inl e
                                | Inr normalized \<Rightarrow>
                                    (case map_exn normalize_uuid_val uuids of
                                       Inl e \<Rightarrow> Inl e
                                     | Inr ids \<Rightarrow> Inr (normalized \<in> set ids)))
                             else Inr False))))))"

text \<open>
  The part of \<open>check_server\<close> that follows the probe, as a function of the payload; the
  proofs go through it.
\<close>

definition after_probe :: "string \<Rightarrow> json \<Rightarrow> json \<Rightarrow> exn + bool" where
  "after_probe player_name player_uuid payload =
          (case dict_get payload ''online'' JNull of
             Inl e \<Rightarrow> Inl e
           | Inr online \<Rightarrow>
               (if \<not> truthy online then Inr False
                else
                  (case extract_players payload of
                     Inl e \<Rightarrow> Inl e
                   | Inr (names, uuids) \<Rightarrow>
                       (case map_exn lower_val names of
                          Inl e \<Rightarrow> Inl e
                        | Inr lowered \<Rightarrow>
                            (if lower player_name \<in> set lowered then Inr True
                             else if truthy player_uuid then
                               (case normalize_uuid_val player_uuid of
                                  Inl e \<Rightarrow> Inl e
                                | Inr normalized \<Rightarrow>
                                    (case map_exn normalize_uuid_val uuids of
                                       Inl e \<Rightarrow> Inl e
                                     | Inr ids \<Rightarrow> Inr (normalized \<in> set ids)))
                             else Inr False)))))"

text \<open>
  \<open>asyncio.gather\<close> over the tasks, in the order in which they finish: a task that
  appended its target has put it at the end of \<open>matches\<close>; the first exception that
  leaves a task leaves \<open>gather\<close>, and \<open>find_player_servers\<close> with it.
\<close>

fun gather :: "(ServerTarget \<times> (exn + bool)) list \<Rightarrow> exn + ServerTarget list" where
  "gather [] = Inr []"
| "gather ((t, Inl e) # rest) = Inl e"
| "gather ((t, Inr b) # rest) =
     (case gather rest of
        Inl e \<Rightarrow> Inl e
      | Inr ms \<Rightarrow> Inr (if b then t # ms else ms))"

text \<open>
  The order in which the tasks finish is not the function's to choose; \<open>order\<close> lists the
  positions of the targets in that order. Every order a run can take is a permutation of
  the positions (\<open>is_schedule\<close>); the semaphore excludes some of them, which the model
  does not.

  \<open>asyncio.Semaphore\<close> raises \<open>ValueError\<close> on a negative value; with the value 0 no task
  ever enters \<open>async with semaphore\<close>, and \<open>gather\<close> over at least one task never
  returns: the result is \<open>None\<close>.
\<close>

definition is_schedule :: "nat list \<Rightarrow> nat \<Rightarrow> bool" where
  "is_schedule order n \<longleftrightarrow> length order = n \<and> distinct order \<and> list_all (\<lambda>i. i < n) order"

definition find_player_servers ::
    "session \<Rightarrow> nat list \<Rightarrow> ServerTarget list \<Rightarrow> string \<Rightarrow> json \<Rightarrow> int
      \<Rightarrow> (exn + ServerTarget list) option" where
  "find_player_servers session order targets player_name player_uuid max_conc =
     (if max_conc < 0 then Some (Inl ValueError)
      else if max_conc = 0 \<and> targets \<noteq> [] then None
      else Some (gather (map (\<lambda>i. (targets ! i,
                    check_server session player_name player_uuid i (targets ! i))) order)))"

text \<open>
  The match predicate in the spec's words, on the payload of a probe that succeeded: the
  \<open>online\<close> flag is true, and (a) the lowercased player name is the lowercase of an
  extracted name, or (b) the identifier is a non-empty string that, normalised, is the
  normalised form of an extracted identifier. The flag is read as the code reads it, by
  its truth value: a missing flag is false, a JSON boolean is itself.
\<close>

definition name_matches :: "string \<Rightarrow> json list \<Rightarrow> bool" where
  "name_matches player_name names =
     list_ex (\<lambda>v. case v of JStr s \<Rightarrow> lower s = lower player_name | _ \<Rightarrow> False) names"

definition id_matches :: "json \<Rightarrow> json list \<Rightarrow> bool" where
  "id_matches player_uuid uuids =
     (case player_uuid of
        JStr u \<Rightarrow>
          u \<noteq> [] \<and>
          list_ex (\<lambda>v. case v of
                        JStr s \<Rightarrow> lower (strip_hyphens s) = lower (strip_hyphens u)
                      | _ \<Rightarrow> False) uuids
      | _ \<Rightarrow> False)"

definition online_flag :: "json \<Rightarrow> bool" where
  "online_flag payload = (case dict_get payload ''online'' JNull of Inl e \<Rightarrow> False | Inr v \<Rightarrow> truthy v)"

definition player_listed :: "string \<Rightarrow> json \<Rightarrow> json \<Rightarrow> bool" where
  "player_listed player_name player_uuid payload \<longleftrightarrow>
     online_flag payload \<and>
     (case extract_players payload of
        Inl e \<Rightarrow> False
      | Inr (names, uuids) \<Rightarrow> name_matches player_name names \<or> id_matches player_uuid uuids)"

text \<open>Whether the probe of the \<open>i\<close>-th target succeeded with a payload that lists the player.\<close>

definition probe_matches :: "session \<Rightarrow> string \<Rightarrow> json \<Rightarrow> ServerTarget list \<Rightarrow> nat \<Rightarrow> bool" where
  "probe_matches session player_name player_uuid targets i =
     (case fetch_server_status session i (address (targets ! i)) of
        Inl e \<Rightarrow> False
      | Inr payload \<Rightarrow> player_listed player_name player_uuid payload)"

text \<open>
  A payload on which \<open>check_server\<close> raises nothing: an object that is offline, or one of
  the shape \<open>extract_players\<close> is written for whose extracted names and identifiers are
  all strings; and an identifier that is \<open>None\<close> or a string.
\<close>

definition payload_ok :: "json \<Rightarrow> bool" where
  "payload_ok payload =
     (case payload of
        JDict kvs \<Rightarrow>
          \<not> online_flag payload
          \<or> (case extract_players payload of
                Inl e \<Rightarrow> False
              | Inr (names, uuids) \<Rightarrow> list_all is_str names \<and> list_all is_str uuids)
      | _ \<Rightarrow> False)"

definition probe_ok :: "session \<Rightarrow> ServerTarget list \<Rightarrow> nat \<Rightarrow> bool" where
  "probe_ok session targets i =
     (case fetch_server_status session i (address (targets ! i)) of
        Inl e \<Rightarrow> e = ClientError \<or> e = TimeoutError
      | Inr payload \<Rightarrow> payload_ok payload)"

fun uuid_ok :: "json \<Rightarrow> bool" where
  "uuid_ok JNull = True"
| "uuid_ok (JStr u) = True"
| "uuid_ok _ = False"




section \<open>The command procurar\<close>

text \<open>
  \<^verbatim>\<open>
  async def procurar(interaction, jogador: str) -> None:
      if bot.http_session is None:
          await interaction.response.send_message("Sessao HTTP nao inicializada. ...")
          return
      if not bot.config.servers:
          await interaction.response.send_message("Nenhum servidor configurado ainda. ...")
          return
      await interaction.response.defer(thinking=True)
      player_name = jogador
      player_uuid = None
      if UUID_REGEX.match(jogador):
          player_uuid = jogador
      else:
          player_uuid = await fetch_uuid_for_name(bot.http_session, jogador)
          if player_uuid is None:
              await interaction.followup.send(f"Jogador `{jogador}` nao encontrado na Mojang.")
              return
      matches = await find_player_servers(
          bot.http_session, bot.config.servers,
          player_name=player_name, player_uuid=player_uuid,
          max_concurrency=bot.config.max_concurrency)
      if not matches:
          await interaction.followup.send("Nenhum servidor cristao configurado ...")
          return
      embed = discord.Embed(title="Jogador encontrado", ...)
      for server in matches:
          embed.add_field(name=server.name, value=f"Endereco: `{server.address}`", ...)
      await interaction.followup.send(embed=embed)
  \<close>
  The command's result is the message it sends, an exception or no end, together with the
  requests it made of the two web services. The calls of the chat platform are taken to
  succeed.
\<close>

datatype reply =
    SessionNotReady
  | NoServersConfigured
  | PlayerNotFound
  | NoMatchFound
  | Found "ServerTarget list"

datatype request = DirectoryLookup string | Probe json

record bot =
  http_session :: "session option"
  config :: BotConfig

text \<open>
  The resolving step of the command, lines 195 to 207: the values of \<open>player_name\<close> and
  \<open>player_uuid\<close> with which \<open>find_player_servers\<close> is called (\<open>None\<close> when the command
  stops at "not found"), or the exception of the directory lookup, and the requests made.
\<close>

definition resolve ::
    "session \<Rightarrow> string \<Rightarrow> (exn + (string \<times> json) option) \<times> request list" where
  "resolve session jogador =
     (if UUID_REGEX_match jogador then (Inr (Some (jogador, JStr jogador)), [])
      else
        (case fetch_uuid_for_name session jogador of
           Inl e \<Rightarrow> (Inl e, [DirectoryLookup jogador])
         | Inr player_uuid \<Rightarrow>
             (if player_uuid = JNull then (Inr None, [DirectoryLookup jogador])
              else (Inr (Some (jogador, player_uuid)), [DirectoryLookup jogador]))))"

text \<open>
  The probes of a call of \<open>find_player_servers\<close>: one for each target, unless the
  semaphore was refused or lets no task in.
\<close>

definition probes_issued :: "ServerTarget list \<Rightarrow> int \<Rightarrow> request list" where
  "probes_issued targets max_conc =
     (if max_conc \<le> 0 then [] else map (\<lambda>t. Probe (address t)) targets)"

text \<open>The second half of the command, from the call of \<open>find_player_servers\<close> on.\<close>

definition search ::
    "bot \<Rightarrow> session \<Rightarrow> nat list \<Rightarrow> string \<Rightarrow> json \<Rightarrow> (exn + reply) option \<times> request list" where
  "search b session order player_name player_uuid =
     ((case find_player_servers session order (servers (config b)) player_name player_uuid
              (max_concurrency (config b)) of
         None \<Rightarrow> None
       | Some (Inl e) \<Rightarrow> Some (Inl e)
       | Some (Inr matches) \<Rightarrow>
           Some (Inr (if matches = [] then NoMatchFound else Found matches))),
      probes_issued (servers (config b)) (max_concurrency (config b)))"

definition procurar :: "bot \<Rightarrow> nat list \<Rightarrow> string \<Rightarrow> (exn + reply) option \<times> request list" where
  "procurar b order jogador =
     (case http_session b of
        None \<Rightarrow> (Some (Inr SessionNotReady), [])
      | Some session \<Rightarrow>
          (if servers (config b) = [] then (Some (Inr NoServersConfigured), [])
           else if UUID_REGEX_match jogador then
             search b session order jogador (JStr jogador)
           else
             (case fetch_uuid_for_name session jogador of
                Inl e \<Rightarrow> (Some (Inl e), [DirectoryLookup jogador])
              | Inr player_uuid \<Rightarrow>
                  (if player_uuid = JNull then
                     (Some (Inr PlayerNotFound), [DirectoryLookup jogador])
                   else
                     (case search b session order jogador player_uuid of
                        (r, probes) \<Rightarrow> (r, DirectoryLookup jogador # probes))))))"

section \<open>A small world\<close>

text \<open>
  Four configured servers: \<open>Steve\<close> is on the roster of the first, by name and by
  identifier; the second is online with \<open>Alex\<close> alone; the third is offline with
  \<open>Steve\<close> on its roster; the fourth does not answer. The directory service knows
  \<open>Steve\<close>, answers 204 for \<open>Nope\<close> and answers \<open>Ghost\<close> with an object that has no
  \<open>id\<close>.
\<close>

definition server_a :: ServerTarget where
  "server_a = \<lparr>name = JStr ''A'', address = JStr ''a.example''\<rparr>"

definition server_b :: ServerTarget where
  "server_b = \<lparr>name = JStr ''B'', address = JStr ''b.example''\<rparr>"

definition server_c :: ServerTarget where
  "server_c = \<lparr>name = JStr ''C'', address = JStr ''c.example''\<rparr>"

definition server_d :: ServerTarget where
  "server_d = \<lparr>name = JStr ''D'', address = JStr ''d.example''\<rparr>"

definition example_targets :: "ServerTarget list" where
  "example_targets = [server_a, server_b, server_c, server_d]"

definition example_status :: "nat \<Rightarrow> json \<Rightarrow> http_result" where
  "example_status i addr =
     (if addr = JStr ''a.example'' then
        Response 200 (Inr (JDict [(''online'', JBool True),
          (''players'', JDict [(''online'', JInt 1), (''max'', JInt 20),
             (''list'', JList [JStr ''Steve'']),
             (''uuid'', JList [JStr ''aaaaaaaa-aaaa-aaaa-aaaa-aaaaaaaaaaaa''])])]))
      else if addr = JStr ''b.example'' then
        Response 200 (Inr (JDict [(''online'', JBool True),
          (''players'', JDict [(''online'', JInt 1), (''max'', JInt 20),
             (''list'', JList [JDict [(''name'', JStr ''Alex'')]])])]))
      else if addr = JStr ''c.example'' then
        Response 200 (Inr (JDict [(''online'', JBool False),
          (''players'', JDict [(''list'', JList [JStr ''Steve''])])]))
      else GetRaises ClientError)"

definition example_directory :: "string \<Rightarrow> http_result" where
  "example_directory nm =
     (if nm = ''Steve'' then
        Response 200 (Inr (JDict [(''id'', JStr ''aaaaaaaaaaaaaaaaaaaaaaaaaaaaaaaa''),
                                  (''name'', JStr ''Steve'')]))
      else if nm = ''Ghost'' then Response 200 (Inr (JDict [(''name'', JStr ''Ghost'')]))
      else Response 204 (Inl ValueError))"

definition example_session :: session where
  "example_session = \<lparr>mojang = example_directory, mcsrvstat = example_status\<rparr>"

text \<open>
  A second world, in which the status service answers for \<open>b.example\<close> with
  \<open>"players": null\<close> and for \<open>e.example\<close> with a roster whose second entry has a number
  as \<open>name\<close>.
\<close>

definition server_e :: ServerTarget where
  "server_e = \<lparr>name = JStr ''E'', address = JStr ''e.example''\<rparr>"

definition faulty_status :: "nat \<Rightarrow> json \<Rightarrow> http_result" where
  "faulty_status i addr =
     (if addr = JStr ''b.example'' then
        Response 200 (Inr (JDict [(''online'', JBool True), (''players'', JNull)]))
      else if addr = JStr ''e.example'' then
        Response 200 (Inr (JDict [(''online'', JBool True),
          (''players'', JDict [(''list'', JList [JStr ''Steve'', JDict [(''name'', JInt 5)]])])]))
      else example_status i addr)"

definition faulty_session :: session where
  "faulty_session = \<lparr>mojang = example_directory, mcsrvstat = faulty_status\<rparr>"

definition example_bot :: bot where
  "example_bot =
     \<lparr>http_session = Some example_session,
      config = \<lparr>token = JStr ''t'', servers = example_targets,
                request_timeout_seconds = JInt 10, max_concurrency = 8\<rparr>\<rparr>"

section \<open>Properties of normalize\_uuid\<close>

lemma lower_char_idem: "lower_char (lower_char c) = lower_char c"
  by (simp add: lower_char_def Let_def)

lemma lower_idem: "lower (lower s) = lower s"
  by (simp add: lower_def lower_char_idem)

text \<open>
  Beyond ASCII: a name that begins with a capital E acute (code point 201) and the same
  name in the other case, beginning with the small one (233), lower alike.
\<close>

lemma lower_latin1: 
  "lower [CHR 0xC9, CHR ''r'', CHR ''i'', CHR ''c''] = lower [CHR 0xE9, CHR ''R'', CHR ''I'', CHR ''C'']"
  by code_simp

lemma of_char_lower_char:
  "(of_char (lower_char c) :: nat) =
     (if (65 \<le> (of_char c :: nat) \<and> (of_char c :: nat) \<le> 90)
         \<or> (192 \<le> (of_char c :: nat) \<and> (of_char c :: nat) \<le> 214)
         \<or> (216 \<le> (of_char c :: nat) \<and> (of_char c :: nat) \<le> 222)
      then of_char c + 32 else of_char c)"
  by (simp add: lower_char_def Let_def)

lemma of_char_hyphen: "(of_char c :: nat) = 45 \<longleftrightarrow> c = CHR ''-''"
proof -
  have "(of_char c :: nat) = of_char CHR ''-'' \<longleftrightarrow> c = CHR ''-''"
    by (rule of_char_eq_iff)
  then show ?thesis by simp
qed

lemma lower_char_hyphen: "lower_char c = CHR ''-'' \<longleftrightarrow> c = CHR ''-''"
proof -
  have "lower_char c = CHR ''-'' \<longleftrightarrow> (of_char (lower_char c) :: nat) = 45"
    by (simp add: of_char_hyphen)
  also have "\<dots> \<longleftrightarrow> (of_char c :: nat) = 45"
    by (auto simp: of_char_lower_char)
  finally show ?thesis by (simp add: of_char_hyphen)
qed

lemma strip_hyphens_lower: "strip_hyphens (lower s) = lower (strip_hyphens s)"
  by (induction s) (simp_all add: strip_hyphens_def lower_def lower_char_hyphen)

lemma strip_hyphens_idem: "strip_hyphens (strip_hyphens s) = strip_hyphens s"
  by (simp add: strip_hyphens_def)

lemma strip_hyphens_hyphenate: "strip_hyphens (hyphenate h) = strip_hyphens h"
proof -
  have "strip_hyphens (hyphenate h) =
      strip_hyphens (take 8 h @ take 4 (drop 8 h) @ take 4 (drop 12 h)
        @ take 4 (drop 16 h) @ drop 20 h)"
    by (simp add: strip_hyphens_def hyphenate_def)
  also have "take 4 (drop 16 h) @ drop 20 h = drop 16 h"
    using append_take_drop_id [of 4 "drop 16 h"] by simp
  also have "take 4 (drop 12 h) @ drop 16 h = drop 12 h"
    using append_take_drop_id [of 4 "drop 12 h"] by simp
  also have "take 4 (drop 8 h) @ drop 12 h = drop 8 h"
    using append_take_drop_id [of 4 "drop 8 h"] by simp
  also have "take 8 h @ drop 8 h = h"
    by simp
  finally show ?thesis .
qed

text \<open>
  C9. Normalising twice is normalising once, for every string; and the hyphenated
  (8-4-4-4-12) form of an identifier normalises to the same value as the unhyphenated
  one.
\<close>

theorem normalize_uuid_idempotent:
  "normalize_uuid (normalize_uuid x) = normalize_uuid x
   \<and> normalize_uuid (hyphenate x) = normalize_uuid x"
  by (simp add: normalize_uuid_def strip_hyphens_lower strip_hyphens_idem lower_idem
      strip_hyphens_hyphenate)


section \<open>Properties of extract\_players\<close>

lemma collect_member:
  "v \<in> set (collect key es) \<longleftrightarrow>
     (\<exists>s. v = JStr s \<and> JStr s \<in> set es)
     \<or> (truthy v \<and> (\<exists>kvs. JDict kvs \<in> set es \<and> map_of kvs key = Some v))"
proof (induction es)
  case Nil
  show ?case by (simp add: collect_def)
next
  case (Cons e es)
  have step: "set (collect key (e # es)) = set (entry_value key e) \<union> set (collect key es)"
    by (simp add: collect_def)
  have here: "v \<in> set (entry_value key e) \<longleftrightarrow>
      (\<exists>s. v = JStr s \<and> JStr s = e)
      \<or> (truthy v \<and> (\<exists>kvs. JDict kvs = e \<and> map_of kvs key = Some v))"
    by (cases e) (auto split: option.splits)
  show ?case
    unfolding step Un_iff Cons.IH here by auto
qed

lemma collect_strings:
  assumes "\<And>kvs v. JDict kvs \<in> set es \<Longrightarrow> map_of kvs key = Some v \<Longrightarrow> is_str v"
    and "x \<in> set (collect key es)"
  shows "is_str x"
  using assms(2) unfolding collect_member using assms(1) by auto

lemma py_iter_iter_ok:
  "iter_ok v \<Longrightarrow> py_iter (py_or v (JList [])) = Inr (entries_of v)"
  by (cases v) (auto simp: py_or_def entries_of_def)

lemma py_iter_not_iter_ok:
  "\<not> iter_ok v \<Longrightarrow> py_iter (py_or v (JList [])) = Inl TypeError"
  by (cases v) (auto simp: py_or_def)

lemma entries_of_falsy: "\<not> truthy v \<Longrightarrow> entries_of v = []"
  by (simp add: entries_of_def py_or_def)

lemma extract_players_shape:
  assumes "roster_shape payload"
  shows "extract_players payload =
    Inr (collect ''name'' (entries_of (roster_field payload ''list'')),
         collect ''uuid'' (entries_of (roster_field payload ''uuid'')))"
proof -
  from assms obtain kvs where p: "payload = JDict kvs"
    by (cases payload) (auto simp: roster_shape_def players_ok_def)
  show ?thesis
  proof (cases "map_of kvs ''players''")
    case None
    then show ?thesis
      by (simp add: p extract_players_def roster_field_def py_or_def entries_of_def)
  next
    case (Some pl)
    with assms p obtain pkvs where pl: "pl = JDict pkvs"
      by (cases pl) (auto simp: roster_shape_def players_ok_def)
    have l: "iter_ok (case map_of pkvs ''list'' of None \<Rightarrow> JNull | Some v \<Rightarrow> v)"
      and u: "iter_ok (case map_of pkvs ''uuid'' of None \<Rightarrow> JNull | Some v \<Rightarrow> v)"
      using assms by (simp_all add: roster_shape_def roster_field_def p Some pl)
    have u': "py_or (case map_of pkvs ''uuid'' of None \<Rightarrow> JList [] | Some v \<Rightarrow> v) (JList [])
        = py_or (case map_of pkvs ''uuid'' of None \<Rightarrow> JNull | Some v \<Rightarrow> v) (JList [])"
      by (simp add: py_or_def split: option.splits)
    show ?thesis
      using py_iter_iter_ok [OF l] py_iter_iter_ok [OF u]
      by (simp add: p Some pl extract_players_def roster_field_def u')
  qed
qed

lemma extract_players_returns_iff:
  "(\<exists>r. extract_players payload = Inr r) \<longleftrightarrow> roster_shape payload"
proof
  assume "roster_shape payload"
  then show "\<exists>r. extract_players payload = Inr r"
    by (simp add: extract_players_shape)
next
  assume ret: "\<exists>r. extract_players payload = Inr r"
  then obtain kvs where p: "payload = JDict kvs"
    by (cases payload) (auto simp: extract_players_def)
  show "roster_shape payload"
  proof (cases "map_of kvs ''players''")
    case None
    then show ?thesis
      by (simp add: p roster_shape_def players_ok_def roster_field_def)
  next
    case (Some pl)
    with ret p obtain pkvs where pl: "pl = JDict pkvs"
      by (cases pl) (auto simp: extract_players_def)
    have u': "py_or (case map_of pkvs ''uuid'' of None \<Rightarrow> JList [] | Some v \<Rightarrow> v) (JList [])
        = py_or (case map_of pkvs ''uuid'' of None \<Rightarrow> JNull | Some v \<Rightarrow> v) (JList [])"
      by (simp add: py_or_def split: option.splits)
    have "iter_ok (case map_of pkvs ''list'' of None \<Rightarrow> JNull | Some v \<Rightarrow> v)"
    proof (rule ccontr)
      assume "\<not> iter_ok (case map_of pkvs ''list'' of None \<Rightarrow> JNull | Some v \<Rightarrow> v)"
      then have "extract_players payload = Inl TypeError"
        by (simp add: py_iter_not_iter_ok p Some pl extract_players_def)
      with ret show False by auto
    qed
    moreover have "iter_ok (case map_of pkvs ''uuid'' of None \<Rightarrow> JNull | Some v \<Rightarrow> v)"
    proof (rule ccontr)
      assume "\<not> iter_ok (case map_of pkvs ''uuid'' of None \<Rightarrow> JNull | Some v \<Rightarrow> v)"
      then have "\<exists>e. extract_players payload = Inl e"
        by (simp add: py_iter_not_iter_ok p Some pl extract_players_def u' split: sum.splits)
      with ret show False by auto
    qed
    ultimately show ?thesis
      by (simp add: p Some pl roster_shape_def players_ok_def roster_field_def)
  qed
qed


text \<open>
  C6, as amended. \<open>extract_players\<close> does fail, on a payload whose \<open>players\<close> is there
  and is not an object (\<open>null\<close>, say), and it returns values that are not strings when
  an entry's \<open>name\<close> is not one. What holds: on a payload that is an object, whose
  \<open>players\<close> is absent or an object, and whose \<open>list\<close> and \<open>uuid\<close> are each absent,
  falsy or iterable, it returns two lists. The first holds exactly the bare strings among
  the entries of \<open>list\<close> and the truthy \<open>name\<close> values of its object entries, the
  second the same for \<open>uuid\<close>; a list is empty when \<open>players\<close> or the field is missing
  or empty; and the lists are lists of strings when those \<open>name\<close> and \<open>uuid\<close> values
  are strings.
\<close>

theorem extract_players_tolerant:
  assumes "roster_shape payload"
  shows "\<exists>names uuids. extract_players payload = Inr (names, uuids)
    \<and> (\<forall>v. v \<in> set names \<longleftrightarrow>
          (\<exists>s. v = JStr s \<and> JStr s \<in> set (entries_of (roster_field payload ''list'')))
          \<or> (truthy v \<and> (\<exists>kvs. JDict kvs \<in> set (entries_of (roster_field payload ''list''))
                \<and> map_of kvs ''name'' = Some v)))
    \<and> (\<forall>v. v \<in> set uuids \<longleftrightarrow>
          (\<exists>s. v = JStr s \<and> JStr s \<in> set (entries_of (roster_field payload ''uuid'')))
          \<or> (truthy v \<and> (\<exists>kvs. JDict kvs \<in> set (entries_of (roster_field payload ''uuid''))
                \<and> map_of kvs ''uuid'' = Some v)))
    \<and> (\<not> truthy (roster_field payload ''list'') \<longrightarrow> names = [])
    \<and> (\<not> truthy (roster_field payload ''uuid'') \<longrightarrow> uuids = [])
    \<and> ((\<forall>kvs v. JDict kvs \<in> set (entries_of (roster_field payload ''list''))
            \<and> map_of kvs ''name'' = Some v \<longrightarrow> is_str v)
         \<longrightarrow> (\<forall>v \<in> set names. is_str v))
    \<and> ((\<forall>kvs v. JDict kvs \<in> set (entries_of (roster_field payload ''uuid''))
            \<and> map_of kvs ''uuid'' = Some v \<longrightarrow> is_str v)
         \<longrightarrow> (\<forall>v \<in> set uuids. is_str v))"
proof (intro exI conjI)
  show "extract_players payload =
    Inr (collect ''name'' (entries_of (roster_field payload ''list'')),
         collect ''uuid'' (entries_of (roster_field payload ''uuid'')))"
    by (rule extract_players_shape [OF assms])
  show "\<forall>v. v \<in> set (collect ''name'' (entries_of (roster_field payload ''list''))) \<longleftrightarrow>
          (\<exists>s. v = JStr s \<and> JStr s \<in> set (entries_of (roster_field payload ''list'')))
          \<or> (truthy v \<and> (\<exists>kvs. JDict kvs \<in> set (entries_of (roster_field payload ''list''))
                \<and> map_of kvs ''name'' = Some v))"
    by (simp add: collect_member)
  show "\<forall>v. v \<in> set (collect ''uuid'' (entries_of (roster_field payload ''uuid''))) \<longleftrightarrow>
          (\<exists>s. v = JStr s \<and> JStr s \<in> set (entries_of (roster_field payload ''uuid'')))
          \<or> (truthy v \<and> (\<exists>kvs. JDict kvs \<in> set (entries_of (roster_field payload ''uuid''))
                \<and> map_of kvs ''uuid'' = Some v))"
    by (simp add: collect_member)
  show "\<not> truthy (roster_field payload ''list'') \<longrightarrow>
      collect ''name'' (entries_of (roster_field payload ''list'')) = []"
    by (simp add: entries_of_falsy collect_def)
  show "\<not> truthy (roster_field payload ''uuid'') \<longrightarrow>
      collect ''uuid'' (entries_of (roster_field payload ''uuid'')) = []"
    by (simp add: entries_of_falsy collect_def)
  show "(\<forall>kvs v. JDict kvs \<in> set (entries_of (roster_field payload ''list''))
            \<and> map_of kvs ''name'' = Some v \<longrightarrow> is_str v)
         \<longrightarrow> (\<forall>v \<in> set (collect ''name'' (entries_of (roster_field payload ''list''))). is_str v)"
    using collect_strings by blast
  show "(\<forall>kvs v. JDict kvs \<in> set (entries_of (roster_field payload ''uuid''))
            \<and> map_of kvs ''uuid'' = Some v \<longrightarrow> is_str v)
         \<longrightarrow> (\<forall>v \<in> set (collect ''uuid'' (entries_of (roster_field payload ''uuid''))). is_str v)"
    using collect_strings by blast
qed

theorem extract_players_tolerant_witness:
  "roster_shape (JDict [(''online'', JBool True),
      (''players'', JDict [(''list'', JList [JStr ''Steve'', JDict [(''name'', JStr ''Alex'')], JInt 3]),
                           (''uuid'', JNull)])])
   \<and> extract_players (JDict [(''online'', JBool True),
      (''players'', JDict [(''list'', JList [JStr ''Steve'', JDict [(''name'', JStr ''Alex'')], JInt 3]),
                           (''uuid'', JNull)])])
     = Inr ([JStr ''Steve'', JStr ''Alex''], [])"
proof -
  have h: "roster_shape (JDict [(''online'', JBool True),
      (''players'', JDict [(''list'', JList [JStr ''Steve'', JDict [(''name'', JStr ''Alex'')], JInt 3]),
                           (''uuid'', JNull)])])"
    by (simp add: roster_shape_def players_ok_def roster_field_def)
  show ?thesis
    using h extract_players_tolerant [OF h]
    by (simp add: extract_players_def py_or_def collect_def)
qed

text \<open>
  Where C6 as stated fails: \<open>players\<close> is \<open>null\<close>, and \<open>None.get\<close> raises; \<open>list\<close> is
  a number, and the loop over it raises; an entry's \<open>name\<close> is a number, and the number
  is returned among the names.
\<close>

theorem extract_players_fails:
  "extract_players (JDict [(''online'', JBool True), (''players'', JNull)]) = Inl AttributeError
   \<and> extract_players (JDict [(''players'', JDict [(''list'', JInt 5)])]) = Inl TypeError
   \<and> extract_players (JDict [(''players'', JDict [(''list'', JList [JDict [(''name'', JInt 5)]])])])
       = Inr ([JInt 5], [])"
  by (simp add: extract_players_def py_or_def collect_def)

section \<open>Properties of load\_config\<close>

lemma load_config_Inr:
  assumes "load_config fs path = Inr cfg"
  shows "\<exists>kvs. fs path = Some (Inr (JDict kvs))
    \<and> max_concurrency cfg =
        coerce_concurrency (case map_of kvs ''max_concurrency'' of None \<Rightarrow> JInt 8 | Some v \<Rightarrow> v)
    \<and> request_timeout_seconds cfg =
        (case map_of kvs ''request_timeout_seconds'' of None \<Rightarrow> JInt 10 | Some v \<Rightarrow> v)
    \<and> truthy (token cfg)"
proof -
  from assms obtain raw where raw: "fs path = Some (Inr raw)"
    by (auto simp: load_config_def split: option.splits sum.splits)
  with assms obtain kvs where kvs: "raw = JDict kvs"
    by (cases raw) (auto simp: load_config_def)
  show ?thesis
    using assms
    by (auto simp: load_config_def raw kvs split: sum.splits if_splits)
qed

text \<open>
  C7. Whenever \<open>load_config\<close> returns a configuration, its \<open>max_concurrency\<close> is at least
  1: it is 8 when the field is missing, 1 when the supplied value is not an integer or is
  below 1, and the supplied integer otherwise.
\<close>

theorem load_config_max_concurrency:
  assumes "load_config fs path = Inr cfg"
  shows "1 \<le> max_concurrency cfg
    \<and> (\<exists>kvs. fs path = Some (Inr (JDict kvs))
        \<and> (map_of kvs ''max_concurrency'' = None \<longrightarrow> max_concurrency cfg = 8)
        \<and> (\<forall>v. map_of kvs ''max_concurrency'' = Some v \<longrightarrow>
              (as_int v = None \<longrightarrow> max_concurrency cfg = 1)
              \<and> (\<forall>n. as_int v = Some n \<longrightarrow>
                    (n < 1 \<longrightarrow> max_concurrency cfg = 1)
                    \<and> (1 \<le> n \<longrightarrow> max_concurrency cfg = n))))"
proof -
  from load_config_Inr [OF assms] obtain kvs where
    f: "fs path = Some (Inr (JDict kvs))" and
    m: "max_concurrency cfg =
        coerce_concurrency (case map_of kvs ''max_concurrency'' of None \<Rightarrow> JInt 8 | Some v \<Rightarrow> v)"
    by blast
  have "1 \<le> coerce_concurrency v" for v
    by (simp add: coerce_concurrency_def split: option.splits)
  with m have a: "1 \<le> max_concurrency cfg" by simp
  have b: "map_of kvs ''max_concurrency'' = None \<longrightarrow> max_concurrency cfg = 8"
    by (simp add: m coerce_concurrency_def)
  have c: "\<forall>v. map_of kvs ''max_concurrency'' = Some v \<longrightarrow>
              (as_int v = None \<longrightarrow> max_concurrency cfg = 1)
              \<and> (\<forall>n. as_int v = Some n \<longrightarrow>
                    (n < 1 \<longrightarrow> max_concurrency cfg = 1)
                    \<and> (1 \<le> n \<longrightarrow> max_concurrency cfg = n))"
    by (simp add: m coerce_concurrency_def)
  show ?thesis
    by (intro conjI exI [of _ kvs]; fact)
qed

theorem load_config_max_concurrency_witness:
  "load_config
     (single_file ''config.json''
        (JDict [(''discord_token'', JStr ''t''), (''max_concurrency'', JInt 0)]))
     ''config.json''
   = Inr \<lparr>token = JStr ''t'', servers = [], request_timeout_seconds = JInt 10,
          max_concurrency = 1\<rparr>
   \<and> 1 \<le> max_concurrency \<lparr>token = JStr ''t'', servers = [],
          request_timeout_seconds = JInt 10, max_concurrency = 1\<rparr>"
proof -
  have h: "load_config
     (single_file ''config.json''
        (JDict [(''discord_token'', JStr ''t''), (''max_concurrency'', JInt 0)]))
     ''config.json''
   = Inr \<lparr>token = JStr ''t'', servers = [], request_timeout_seconds = JInt 10,
          max_concurrency = 1\<rparr>"
    by (simp add: load_config_def single_file_def coerce_concurrency_def)
  show ?thesis
    using h load_config_max_concurrency [OF h] by simp
qed

text \<open>
  C8, as amended. \<open>load_config\<close> does not look at \<open>request_timeout_seconds\<close>: whenever
  it returns a configuration, the field holds the supplied value as it is, whatever it
  is, and the integer 10 when the field is absent.
\<close>

theorem load_config_request_timeout:
  assumes "load_config fs path = Inr cfg"
  shows "\<exists>kvs. fs path = Some (Inr (JDict kvs))
    \<and> (map_of kvs ''request_timeout_seconds'' = None \<longrightarrow>
          request_timeout_seconds cfg = JInt 10)
    \<and> (\<forall>v. map_of kvs ''request_timeout_seconds'' = Some v \<longrightarrow>
          request_timeout_seconds cfg = v)"
proof -
  from load_config_Inr [OF assms] obtain kvs where
    f: "fs path = Some (Inr (JDict kvs))" and
    r: "request_timeout_seconds cfg =
        (case map_of kvs ''request_timeout_seconds'' of None \<Rightarrow> JInt 10 | Some v \<Rightarrow> v)"
    by blast
  show ?thesis
    using f by (auto simp: r)
qed

theorem load_config_request_timeout_witness:
  "load_config (single_file ''config.json'' (JDict [(''discord_token'', JStr ''t'')]))
     ''config.json''
   = Inr \<lparr>token = JStr ''t'', servers = [], request_timeout_seconds = JInt 10,
          max_concurrency = 8\<rparr>
   \<and> request_timeout_seconds \<lparr>token = JStr ''t'', servers = [],
        request_timeout_seconds = JInt 10, max_concurrency = 8\<rparr> = JInt 10"
proof -
  have h: "load_config (single_file ''config.json'' (JDict [(''discord_token'', JStr ''t'')]))
     ''config.json''
   = Inr \<lparr>token = JStr ''t'', servers = [], request_timeout_seconds = JInt 10,
          max_concurrency = 8\<rparr>"
    by (simp add: load_config_def single_file_def coerce_concurrency_def)
  show ?thesis
    using h load_config_request_timeout [OF h] by simp
qed

text \<open>
  Where C8 as stated fails: a configuration with \<open>"request_timeout_seconds": 0\<close> loads,
  and the timeout of the returned configuration is 0.
\<close>

theorem load_config_timeout_zero:
  "load_config
     (single_file ''config.json''
        (JDict [(''discord_token'', JStr ''t''), (''request_timeout_seconds'', JInt 0)]))
     ''config.json''
   = Inr \<lparr>token = JStr ''t'', servers = [], request_timeout_seconds = JInt 0,
          max_concurrency = 8\<rparr>"
  by (simp add: load_config_def single_file_def coerce_concurrency_def)

section \<open>Properties of find\_player\_servers\<close>

lemma map_exn_lower_val:
  "map_exn lower_val vs = Inr ls \<Longrightarrow>
     (x \<in> set ls \<longleftrightarrow> list_ex (\<lambda>v. case v of JStr s \<Rightarrow> lower s = x | _ \<Rightarrow> False) vs)"
proof (induction vs arbitrary: ls)
  case Nil
  then show ?case by simp
next
  case (Cons v vs)
  then show ?case
    by (cases v) (auto split: sum.splits)
qed

lemma map_exn_normalize_uuid_val:
  "map_exn normalize_uuid_val vs = Inr ls \<Longrightarrow>
     (x \<in> set ls \<longleftrightarrow>
        list_ex (\<lambda>v. case v of JStr s \<Rightarrow> lower (strip_hyphens s) = x | _ \<Rightarrow> False) vs)"
proof (induction vs arbitrary: ls)
  case Nil
  then show ?case by simp
next
  case (Cons v vs)
  then show ?case
    by (cases v) (auto simp: normalize_uuid_def split: sum.splits)
qed

lemma map_exn_lower_val_total:
  "list_all is_str vs \<Longrightarrow> \<exists>ls. map_exn lower_val vs = Inr ls"
proof (induction vs)
  case Nil
  show ?case by simp
next
  case (Cons v vs)
  then show ?case by (cases v) auto
qed

lemma map_exn_normalize_uuid_val_total:
  "list_all is_str vs \<Longrightarrow> \<exists>ls. map_exn normalize_uuid_val vs = Inr ls"
proof (induction vs)
  case Nil
  show ?case by simp
next
  case (Cons v vs)
  then show ?case by (cases v) auto
qed

lemma check_server_after_probe:
  "check_server session player_name player_uuid i target =
     (case fetch_server_status session i (address target) of
        Inl e \<Rightarrow> (if e = ClientError \<or> e = TimeoutError then Inr False else Inl e)
      | Inr payload \<Rightarrow> after_probe player_name player_uuid payload)"
  unfolding check_server_def after_probe_def by (rule refl)

lemma id_matches_iff:
  assumes "truthy player_uuid" "normalize_uuid_val player_uuid = Inr normalized"
    "map_exn normalize_uuid_val uuids = Inr ids"
  shows "normalized \<in> set ids \<longleftrightarrow> id_matches player_uuid uuids"
proof -
  from assms(2) obtain u where u: "player_uuid = JStr u" "normalized = normalize_uuid u"
    by (cases player_uuid) auto
  with assms(1) have "u \<noteq> []" by simp
  then show ?thesis
    using map_exn_normalize_uuid_val [OF assms(3), of "lower (strip_hyphens u)"]
    unfolding u normalize_uuid_def by (simp add: id_matches_def)
qed

lemma id_matches_falsy: "\<not> truthy player_uuid \<Longrightarrow> \<not> id_matches player_uuid uuids"
  by (cases player_uuid) (simp_all add: id_matches_def)

lemma after_probe_sound:
  assumes "after_probe player_name player_uuid payload = Inr b"
  shows "b = player_listed player_name player_uuid payload"
proof -
  from assms obtain online where o: "dict_get payload ''online'' JNull = Inr online"
    by (auto simp: after_probe_def split: sum.splits)
  then have of: "online_flag payload = truthy online"
    by (simp add: online_flag_def)
  show ?thesis
  proof (cases "truthy online")
    case False
    with assms o of show ?thesis
      by (simp add: after_probe_def player_listed_def)
  next
    case True
    with assms o obtain names uuids where e: "extract_players payload = Inr (names, uuids)"
      by (auto simp: after_probe_def split: sum.splits)
    with assms o True obtain lowered where l: "map_exn lower_val names = Inr lowered"
      by (auto simp: after_probe_def split: sum.splits)
    have nm: "lower player_name \<in> set lowered \<longleftrightarrow> name_matches player_name names"
      using map_exn_lower_val [OF l, of "lower player_name"] by (simp add: name_matches_def)
    have pl: "player_listed player_name player_uuid payload
        \<longleftrightarrow> name_matches player_name names \<or> id_matches player_uuid uuids"
      by (simp add: player_listed_def of True e)
    show ?thesis
    proof (cases "lower player_name \<in> set lowered")
      case True
      with assms o \<open>truthy online\<close> e l have "b" by (simp add: after_probe_def)
      with True nm pl show ?thesis by simp
    next
      case nomatch: False
      show ?thesis
      proof (cases "truthy player_uuid")
        case False
        with assms o \<open>truthy online\<close> e l nomatch have "\<not> b" by (simp add: after_probe_def)
        with nomatch nm pl id_matches_falsy [OF False] show ?thesis by simp
      next
        case tu: True
        with assms o \<open>truthy online\<close> e l nomatch obtain normalized ids where
          n: "normalize_uuid_val player_uuid = Inr normalized" and
          i: "map_exn normalize_uuid_val uuids = Inr ids" and
          b: "b = (normalized \<in> set ids)"
          by (auto simp: after_probe_def split: sum.splits)
        show ?thesis
          using id_matches_iff [OF tu n i] b nomatch nm pl by simp
      qed
    qed
  qed
qed

lemma after_probe_total:
  assumes "payload_ok payload" "uuid_ok player_uuid"
  shows "\<exists>b. after_probe player_name player_uuid payload = Inr b"
proof -
  from assms(1) obtain kvs where p: "payload = JDict kvs"
    by (cases payload) (auto simp: payload_ok_def)
  obtain online where o: "dict_get payload ''online'' JNull = Inr online"
    by (simp add: p)
  then have of: "online_flag payload = truthy online"
    by (simp add: online_flag_def)
  show ?thesis
  proof (cases "truthy online")
    case False
    with o show ?thesis by (auto simp: after_probe_def)
  next
    case True
    with assms(1) of obtain names uuids where
      e: "extract_players payload = Inr (names, uuids)" and
      s: "list_all is_str names" "list_all is_str uuids"
      unfolding payload_ok_def p [symmetric]
      by (auto simp: p split: sum.splits)
    from map_exn_lower_val_total [OF s(1)] obtain lowered where
      l: "map_exn lower_val names = Inr lowered" by auto
    from map_exn_normalize_uuid_val_total [OF s(2)] obtain ids where
      i: "map_exn normalize_uuid_val uuids = Inr ids" by auto
    from assms(2) have "\<not> truthy player_uuid \<or> (\<exists>n. normalize_uuid_val player_uuid = Inr n)"
      by (cases player_uuid) auto
    then show ?thesis
      using o True e l i by (auto simp: after_probe_def)
  qed
qed


lemma online_flag_bool:
  "map_of kvs ''online'' = Some (JBool flag) \<Longrightarrow> online_flag (JDict kvs) = flag"
  by (simp add: online_flag_def)

lemma online_flag_missing: "map_of kvs ''online'' = None \<Longrightarrow> \<not> online_flag (JDict kvs)"
  by (simp add: online_flag_def)

lemma check_server_sound:
  assumes "check_server session player_name player_uuid i target = Inr b"
  shows "b = (case fetch_server_status session i (address target) of
                Inl e \<Rightarrow> False
              | Inr payload \<Rightarrow> player_listed player_name player_uuid payload)"
proof (cases "fetch_server_status session i (address target)")
  case (Inl e)
  with assms show ?thesis
    by (simp add: check_server_after_probe split: if_splits)
next
  case (Inr payload)
  with assms have "after_probe player_name player_uuid payload = Inr b"
    by (simp add: check_server_after_probe)
  from after_probe_sound [OF this] Inr show ?thesis by simp
qed

lemma check_server_total:
  assumes "probe_ok session targets i" "uuid_ok player_uuid"
  shows "\<exists>b. check_server session player_name player_uuid i (targets ! i) = Inr b"
proof (cases "fetch_server_status session i (address (targets ! i))")
  case (Inl e)
  with assms(1) show ?thesis
    by (auto simp: check_server_after_probe probe_ok_def)
next
  case (Inr payload)
  with assms(1) have "payload_ok payload" by (simp add: probe_ok_def)
  from after_probe_total [OF this assms(2)] Inr show ?thesis
    by (simp add: check_server_after_probe)
qed

lemma gather_Inr:
  "gather tasks = Inr ms \<Longrightarrow>
     ms = map fst (filter (\<lambda>x. snd x = Inr True) tasks) \<and> (\<forall>x \<in> set tasks. \<exists>b. snd x = Inr b)"
proof (induction tasks arbitrary: ms rule: gather.induct)
  case 1
  then show ?case by simp
next
  case (2 t e rest)
  then show ?case by simp
next
  case (3 t b rest)
  from "3.prems" obtain ms' where r: "gather rest = Inr ms'" and
    ms: "ms = (if b then t # ms' else ms')"
    by (auto split: sum.splits)
  from "3.IH" [OF r] ms show ?case by simp
qed

lemma gather_total:
  "\<forall>x \<in> set tasks. \<exists>b. snd x = Inr b \<Longrightarrow> \<exists>ms. gather tasks = Inr ms"
proof (induction tasks rule: gather.induct)
  case 1
  show ?case by simp
next
  case (2 t e rest)
  then show ?case by simp
next
  case (3 t b rest)
  then obtain ms where "gather rest = Inr ms" by auto
  then show ?case by simp
qed

lemma is_schedule_set:
  assumes "is_schedule order n"
  shows "set order = {..<n}"
proof (rule card_subset_eq)
  show "finite {..<n}" by simp
  show "set order \<subseteq> {..<n}"
    using assms by (auto simp: is_schedule_def list_all_iff)
  show "card (set order) = card {..<n}"
    using assms by (simp add: is_schedule_def distinct_card)
qed

lemma find_player_servers_Inr:
  assumes "find_player_servers session order targets player_name player_uuid max_conc
      = Some (Inr ms)"
  shows "ms = map (\<lambda>i. targets ! i)
        (filter (probe_matches session player_name player_uuid targets) order)
    \<and> (\<forall>i \<in> set order. \<exists>b. check_server session player_name player_uuid i (targets ! i) = Inr b)"
proof -
  define tasks where "tasks = map (\<lambda>i. (targets ! i,
      check_server session player_name player_uuid i (targets ! i))) order"
  from assms have g: "gather tasks = Inr ms"
    by (simp add: find_player_servers_def tasks_def split: if_splits)
  from gather_Inr [OF g] have
    ms: "ms = map fst (filter (\<lambda>x. snd x = Inr True) tasks)" and
    ret: "\<forall>x \<in> set tasks. \<exists>b. snd x = Inr b"
    by simp_all
  from ret have all: "\<forall>i \<in> set order.
      \<exists>b. check_server session player_name player_uuid i (targets ! i) = Inr b"
    by (simp add: tasks_def)
  have same: "(check_server session player_name player_uuid i (targets ! i) = Inr True)
      = probe_matches session player_name player_uuid targets i" if "i \<in> set order" for i
  proof -
    from all that obtain b where
      b: "check_server session player_name player_uuid i (targets ! i) = Inr b"
      by auto
    from check_server_sound [OF b] b show ?thesis
      by (simp add: probe_matches_def)
  qed
  have "ms = map (\<lambda>i. targets ! i)
      (filter (\<lambda>i. check_server session player_name player_uuid i (targets ! i) = Inr True) order)"
    by (simp add: ms tasks_def filter_map comp_def)
  also have "filter (\<lambda>i. check_server session player_name player_uuid i (targets ! i) = Inr True) order
      = filter (probe_matches session player_name player_uuid targets) order"
    by (rule filter_cong [OF refl]) (rule same)
  finally show ?thesis using all by simp
qed

lemma find_player_servers_returns_iff:
  assumes "0 < max_conc"
  shows "(\<exists>ms. find_player_servers session order targets player_name player_uuid max_conc
            = Some (Inr ms))
    \<longleftrightarrow> (\<forall>i \<in> set order. \<exists>b. check_server session player_name player_uuid i (targets ! i) = Inr b)"
proof
  assume "\<exists>ms. find_player_servers session order targets player_name player_uuid max_conc
      = Some (Inr ms)"
  then obtain ms where "find_player_servers session order targets player_name player_uuid max_conc
      = Some (Inr ms)" ..
  from find_player_servers_Inr [OF this]
  show "\<forall>i \<in> set order. \<exists>b. check_server session player_name player_uuid i (targets ! i) = Inr b"
    by simp
next
  assume "\<forall>i \<in> set order. \<exists>b. check_server session player_name player_uuid i (targets ! i) = Inr b"
  then have "\<forall>x \<in> set (map (\<lambda>i. (targets ! i,
      check_server session player_name player_uuid i (targets ! i))) order). \<exists>b. snd x = Inr b"
    by simp
  from gather_total [OF this] obtain ms where "gather (map (\<lambda>i. (targets ! i,
      check_server session player_name player_uuid i (targets ! i))) order) = Inr ms" by auto
  with assms show "\<exists>ms. find_player_servers session order targets player_name player_uuid max_conc
      = Some (Inr ms)"
    by (simp add: find_player_servers_def)
qed


text \<open>
  C1, as amended. The call does not always return a list: what follows the probe in
  \<open>check_server\<close> is outside its \<open>try\<close>, so a payload of an online server that is not
  of the shape \<open>extract_players\<close> is written for, or that holds a name or identifier
  that is not a string, raises, and \<open>gather\<close> hands the exception on: then no target
  is in any result, whatever its own payload lists. What holds, for every order in which
  the tasks finish: whenever \<open>find_player_servers\<close> returns a list, the list holds, in
  the order of finishing, exactly the targets whose probe succeeded with a payload whose
  \<open>online\<close> flag is true and that lists the player, by name (a) or by identifier (b); so
  a target is in the result if and only if it stands at a position whose probe did so,
  and a probe whose payload has \<open>online\<close> false never counts, whatever its roster holds.
  With a concurrency of at least 1 the call returns a list exactly when no task raises,
  and no task raises when the identifier is \<open>None\<close> or a string and every probe either
  fails with a network error or a timeout or yields a well-formed payload.
\<close>

theorem find_player_servers_matches:
  assumes "is_schedule order (length targets)"
  shows "(0 < max_conc \<and> uuid_ok player_uuid \<and> (\<forall>i<length targets. probe_ok session targets i)
          \<longrightarrow> (\<exists>ms. find_player_servers session order targets player_name player_uuid max_conc
                     = Some (Inr ms)))
    \<and> (\<forall>ms. find_player_servers session order targets player_name player_uuid max_conc
               = Some (Inr ms) \<longrightarrow>
          ms = map (\<lambda>i. targets ! i)
                 (filter (probe_matches session player_name player_uuid targets) order)
          \<and> (\<forall>t. t \<in> set ms \<longleftrightarrow>
                (\<exists>i<length targets. targets ! i = t
                    \<and> probe_matches session player_name player_uuid targets i)))
    \<and> (\<forall>i payload. fetch_server_status session i (address (targets ! i)) = Inr payload
          \<and> \<not> online_flag payload \<longrightarrow>
          \<not> probe_matches session player_name player_uuid targets i)
    \<and> (0 < max_conc \<longrightarrow>
          ((\<exists>ms. find_player_servers session order targets player_name player_uuid max_conc
                  = Some (Inr ms))
           \<longleftrightarrow> (\<forall>i<length targets.
                  \<exists>b. check_server session player_name player_uuid i (targets ! i) = Inr b)))"
proof (intro conjI impI allI)
  have so: "set order = {..<length targets}"
    by (rule is_schedule_set [OF assms])
  {
    assume h: "0 < max_conc \<and> uuid_ok player_uuid
      \<and> (\<forall>i<length targets. probe_ok session targets i)"
    then have "\<forall>i \<in> set order.
        \<exists>b. check_server session player_name player_uuid i (targets ! i) = Inr b"
      using so check_server_total [of session targets _ player_uuid player_name] by simp
    with h show "\<exists>ms. find_player_servers session order targets player_name player_uuid max_conc
                     = Some (Inr ms)"
      by (simp add: find_player_servers_returns_iff)
  }
  {
    fix ms
    assume "find_player_servers session order targets player_name player_uuid max_conc
               = Some (Inr ms)"
    from find_player_servers_Inr [OF this]
    show eq: "ms = map (\<lambda>i. targets ! i)
        (filter (probe_matches session player_name player_uuid targets) order)"
      by simp
    fix t
    show "t \<in> set ms \<longleftrightarrow> (\<exists>i<length targets. targets ! i = t
        \<and> probe_matches session player_name player_uuid targets i)"
      unfolding eq using so by auto
  }
  {
    fix i payload
    assume "fetch_server_status session i (address (targets ! i)) = Inr payload
          \<and> \<not> online_flag payload"
    then show "\<not> probe_matches session player_name player_uuid targets i"
      by (simp add: probe_matches_def player_listed_def)
  }
  {
    assume "0 < max_conc"
    from find_player_servers_returns_iff [OF this, of session order targets player_name player_uuid]
    show "(\<exists>ms. find_player_servers session order targets player_name player_uuid max_conc
                  = Some (Inr ms))
           \<longleftrightarrow> (\<forall>i<length targets.
                  \<exists>b. check_server session player_name player_uuid i (targets ! i) = Inr b)"
      by (simp add: so Ball_def)
  }
qed

theorem find_player_servers_matches_witness:
  "is_schedule [2, 0, 3, 1] (length example_targets)
   \<and> (0::int) < 8 \<and> uuid_ok (JStr ''AAAAAAAAAAAAAAAAAAAAAAAAAAAAAAAA'')
   \<and> list_all (probe_ok example_session example_targets) [0..<length example_targets]
   \<and> find_player_servers example_session [2, 0, 3, 1] example_targets ''alex''
         (JStr ''AAAAAAAAAAAAAAAAAAAAAAAAAAAAAAAA'') 8
       = Some (Inr [server_a, server_b])
   \<and> [server_a, server_b] = map (\<lambda>i. example_targets ! i)
        (filter (probe_matches example_session ''alex''
                   (JStr ''AAAAAAAAAAAAAAAAAAAAAAAAAAAAAAAA'') example_targets) [2, 0, 3, 1])
   \<and> map (probe_matches example_session ''alex''
            (JStr ''AAAAAAAAAAAAAAAAAAAAAAAAAAAAAAAA'') example_targets) [0, 1, 2, 3]
       = [True, True, False, False]
   \<and> find_player_servers example_session [2, 0, 3, 1] example_targets ''alex'' JNull 8
       = Some (Inr [server_b])
   \<and> find_player_servers example_session [2, 0, 3, 1] example_targets ''steve'' JNull 8
       = Some (Inr [server_a])"
proof -
  have s: "is_schedule [2, 0, 3, 1] (length example_targets)"
    by code_simp
  have u: "uuid_ok (JStr ''AAAAAAAAAAAAAAAAAAAAAAAAAAAAAAAA'')"
    by simp
  have ok: "list_all (probe_ok example_session example_targets) [0..<length example_targets]"
    by code_simp
  have r: "find_player_servers example_session [2, 0, 3, 1] example_targets ''alex''
         (JStr ''AAAAAAAAAAAAAAAAAAAAAAAAAAAAAAAA'') 8
       = Some (Inr [server_a, server_b])"
    by code_simp
  have p: "map (probe_matches example_session ''alex''
            (JStr ''AAAAAAAAAAAAAAAAAAAAAAAAAAAAAAAA'') example_targets) [0, 1, 2, 3]
       = [True, True, False, False]"
    by code_simp
  have rn: "find_player_servers example_session [2, 0, 3, 1] example_targets ''alex'' JNull 8
       = Some (Inr [server_b])"
    by code_simp
  have rs: "find_player_servers example_session [2, 0, 3, 1] example_targets ''steve'' JNull 8
       = Some (Inr [server_a])"
    by code_simp
  note t = find_player_servers_matches [OF s, of 8 "JStr ''AAAAAAAAAAAAAAAAAAAAAAAAAAAAAAAA''"
      example_session "''alex''"]
  from t have "\<forall>ms. find_player_servers example_session [2, 0, 3, 1] example_targets ''alex''
         (JStr ''AAAAAAAAAAAAAAAAAAAAAAAAAAAAAAAA'') 8 = Some (Inr ms) \<longrightarrow>
          ms = map (\<lambda>i. example_targets ! i)
                 (filter (probe_matches example_session ''alex''
                   (JStr ''AAAAAAAAAAAAAAAAAAAAAAAAAAAAAAAA'') example_targets) [2, 0, 3, 1])
          \<and> (\<forall>t. t \<in> set ms \<longleftrightarrow>
                (\<exists>i<length example_targets. example_targets ! i = t
                    \<and> probe_matches example_session ''alex''
                   (JStr ''AAAAAAAAAAAAAAAAAAAAAAAAAAAAAAAA'') example_targets i))"
    by (rule conjunct1 [OF conjunct2])
  with r have l: "[server_a, server_b] = map (\<lambda>i. example_targets ! i)
        (filter (probe_matches example_session ''alex''
                   (JStr ''AAAAAAAAAAAAAAAAAAAAAAAAAAAAAAAA'') example_targets) [2, 0, 3, 1])"
    by (elim allE [of _ "[server_a, server_b]"] impE conjE)
  have m: "(0::int) < 8" by simp
  from s m u ok r l p rn rs show ?thesis by (intro conjI)
qed


text \<open>
  Where C1 as stated fails. The probe of the first server succeeds, its payload is online
  and lists \<open>Steve\<close>; the second server answers \<open>"players": null\<close>, its task raises
  \<open>AttributeError\<close>, and the call raises it in either order of finishing: the first
  server is in no result. The same with one server whose own roster lists \<open>Steve\<close> and,
  after it, an entry whose \<open>name\<close> is a number.
\<close>

theorem find_player_servers_raises:
  "probe_matches faulty_session ''Steve'' JNull [server_a, server_b] 0
   \<and> find_player_servers faulty_session [0, 1] [server_a, server_b] ''Steve'' JNull 8
       = Some (Inl AttributeError)
   \<and> find_player_servers faulty_session [1, 0] [server_a, server_b] ''Steve'' JNull 8
       = Some (Inl AttributeError)
   \<and> probe_matches faulty_session ''Steve'' JNull [server_e] 0
   \<and> find_player_servers faulty_session [0] [server_e] ''Steve'' JNull 8
       = Some (Inl AttributeError)"
  by code_simp











section \<open>Properties of UUID\_REGEX\<close>

lemma is_hex_not_hyphen: "is_hex c \<Longrightarrow> c \<noteq> CHR ''-''"
  by (auto simp: is_hex_def Let_def)

lemma strip_hyphens_hex: "list_all is_hex h \<Longrightarrow> strip_hyphens h = h"
  by (induction h) (auto simp: strip_hyphens_def is_hex_not_hyphen)

lemma match_piece_Hex:
  "match_piece (Hex n) s = Some r \<longleftrightarrow> (\<exists>h. s = h @ r \<and> length h = n \<and> list_all is_hex h)"
proof
  assume "match_piece (Hex n) s = Some r"
  then have "n \<le> length s" "list_all is_hex (take n s)" "r = drop n s"
    by (auto split: if_splits)
  then have "s = take n s @ r \<and> length (take n s) = n \<and> list_all is_hex (take n s)"
    by simp
  then show "\<exists>h. s = h @ r \<and> length h = n \<and> list_all is_hex h" ..
next
  assume "\<exists>h. s = h @ r \<and> length h = n \<and> list_all is_hex h"
  then show "match_piece (Hex n) s = Some r" by auto
qed

lemma match_piece_Lit: "match_piece (Lit c) s = Some r \<longleftrightarrow> s = c # r"
  by (cases s) auto

lemma match_pieces_Cons:
  "match_pieces (p # ps) s = Some r \<longleftrightarrow>
     (\<exists>m. match_piece p s = Some m \<and> match_pieces ps m = Some r)"
  by (simp split: option.splits)

lemma match_plain:
  "match_pieces plain_pattern s = Some r \<longleftrightarrow> (\<exists>h. s = h @ r \<and> plain_id h)"
  unfolding plain_pattern_def match_pieces_Cons match_piece_Hex plain_id_def
  by auto

lemma hyphenate_parts:
  assumes "length a = 8" "length b = 4" "length c = 4" "length d = 4"
  shows "hyphenate (a @ b @ c @ d @ e) = a @ ''-'' @ b @ ''-'' @ c @ ''-'' @ d @ ''-'' @ e"
  using assms by (simp add: hyphenate_def)

lemma match_hyphenated:
  "match_pieces hyphenated_pattern s = Some r \<longleftrightarrow> (\<exists>h. s = hyphenate h @ r \<and> plain_id h)"
proof
  assume "match_pieces hyphenated_pattern s = Some r"
  then obtain a b c d e where
    s: "s = a @ CHR ''-'' # b @ CHR ''-'' # c @ CHR ''-'' # d @ CHR ''-'' # e @ r" and
    l: "length a = 8" "length b = 4" "length c = 4" "length d = 4" "length e = 12" and
    x: "list_all is_hex a" "list_all is_hex b" "list_all is_hex c" "list_all is_hex d"
       "list_all is_hex e"
    unfolding hyphenated_pattern_def match_pieces_Cons match_piece_Hex match_piece_Lit
    by auto
  have "s = hyphenate (a @ b @ c @ d @ e) @ r"
    by (simp add: s hyphenate_parts [OF l(1-4)])
  moreover have "plain_id (a @ b @ c @ d @ e)"
    using l x by (simp add: plain_id_def)
  ultimately show "\<exists>h. s = hyphenate h @ r \<and> plain_id h" by blast
next
  assume "\<exists>h. s = hyphenate h @ r \<and> plain_id h"
  then obtain h where s: "s = hyphenate h @ r" and h: "plain_id h" by blast
  define a where "a = take 8 h"
  define b where "b = take 4 (drop 8 h)"
  define c where "c = take 4 (drop 12 h)"
  define d where "d = take 4 (drop 16 h)"
  define e where "e = drop 20 h"
  have l: "length a = 8" "length b = 4" "length c = 4" "length d = 4" "length e = 12"
    using h by (simp_all add: plain_id_def a_def b_def c_def d_def e_def)
  have x: "list_all is_hex a" "list_all is_hex b" "list_all is_hex c" "list_all is_hex d"
       "list_all is_hex e"
    using h
    by (auto simp: plain_id_def a_def b_def c_def d_def e_def list_all_iff
        dest: in_set_takeD in_set_dropD)
  have s': "s = a @ CHR ''-'' # b @ CHR ''-'' # c @ CHR ''-'' # d @ CHR ''-'' # e @ r"
    by (simp add: s hyphenate_def a_def b_def c_def d_def e_def)
  have hex: "match_piece (Hex n) (k @ m) = Some m" if "length k = n" "list_all is_hex k" for n k m
    using that by simp
  show "match_pieces hyphenated_pattern s = Some r"
    unfolding hyphenated_pattern_def s' using l x by (simp add: hex del: match_piece.simps(1))
qed

lemma is_canonical_id_format_iff:
  "is_canonical_id_format t \<longleftrightarrow> plain_id t \<or> (\<exists>h. plain_id h \<and> t = hyphenate h)"
proof
  assume "is_canonical_id_format t"
  then show "plain_id t \<or> (\<exists>h. plain_id h \<and> t = hyphenate h)"
    by (auto simp: is_canonical_id_format_def Let_def plain_id_def)
next
  assume "plain_id t \<or> (\<exists>h. plain_id h \<and> t = hyphenate h)"
  then show "is_canonical_id_format t"
  proof
    assume "plain_id t"
    then show ?thesis
      by (simp add: is_canonical_id_format_def Let_def plain_id_def strip_hyphens_hex)
  next
    assume "\<exists>h. plain_id h \<and> t = hyphenate h"
    then obtain h where h: "plain_id h" and t: "t = hyphenate h" by blast
    then have "strip_hyphens t = h"
      by (simp add: strip_hyphens_hyphenate strip_hyphens_hex plain_id_def)
    with h t show ?thesis
      by (simp add: is_canonical_id_format_def Let_def plain_id_def)
  qed
qed

text \<open>
  What \<open>UUID_REGEX\<close> matches: the strings of the spec's format, and those strings with
  one newline after them.
\<close>

lemma UUID_REGEX_match_iff:
  "UUID_REGEX_match s \<longleftrightarrow>
     is_canonical_id_format s \<or> (\<exists>t. s = t @ [CHR 0x0A] \<and> is_canonical_id_format t)"
proof -
  have alt: "match_alternative ps s \<longleftrightarrow> (\<exists>r. match_pieces ps s = Some r \<and> at_dollar r)" for ps
    by (simp add: match_alternative_def split: option.splits)
  have "UUID_REGEX_match s \<longleftrightarrow>
      (\<exists>r t. s = t @ r \<and> at_dollar r \<and> (plain_id t \<or> (\<exists>h. plain_id h \<and> t = hyphenate h)))"
    unfolding UUID_REGEX_match_def alt match_plain match_hyphenated by blast
  also have "\<dots> \<longleftrightarrow> (\<exists>r t. s = t @ r \<and> at_dollar r \<and> is_canonical_id_format t)"
    unfolding is_canonical_id_format_iff ..
  also have "\<dots> \<longleftrightarrow> is_canonical_id_format s \<or> (\<exists>t. s = t @ [CHR 0x0A] \<and> is_canonical_id_format t)"
    by (auto simp: at_dollar_def)
  finally show ?thesis .
qed


section \<open>Properties of procurar\<close>




lemma procurar_resolve:
  assumes "http_session b = Some session" "servers (config b) \<noteq> []"
  shows "procurar b order jogador =
    (case resolve session jogador of
       (Inl e, reqs) \<Rightarrow> (Some (Inl e), reqs)
     | (Inr None, reqs) \<Rightarrow> (Some (Inr PlayerNotFound), reqs)
     | (Inr (Some (nm, u)), reqs) \<Rightarrow>
         (case search b session order nm u of (r, probes) \<Rightarrow> (r, reqs @ probes)))"
  using assms
  by (simp add: procurar_def resolve_def split: sum.splits prod.splits)







text \<open>
  C10. \<open>fetch_uuid_for_name\<close> returns \<open>None\<close> when the directory service answers 204,
  and also when it answers with a 2xx status and a JSON object that has no \<open>id\<close>. In
  both cases the command, on an input that is not of identifier shape, replies that the
  player was not found, and its only request is the directory lookup: no probe is made,
  and the two cases give the same result.
\<close>

theorem procurar_not_found:
  assumes "http_session b = Some session" "servers (config b) \<noteq> []"
    and "\<not> UUID_REGEX_match jogador"
    and "(\<exists>body. mojang session jogador = Response 204 body)
      \<or> (\<exists>status kvs. mojang session jogador = Response status (Inr (JDict kvs))
            \<and> 200 \<le> status \<and> status < 300 \<and> map_of kvs ''id'' = None)"
  shows "fetch_uuid_for_name session jogador = Inr JNull
    \<and> procurar b order jogador = (Some (Inr PlayerNotFound), [DirectoryLookup jogador])"
proof -
  from assms(4) have f: "fetch_uuid_for_name session jogador = Inr JNull"
    by (auto simp: fetch_uuid_for_name_def)
  with assms(1-3) show ?thesis
    by (simp add: procurar_def)
qed

theorem procurar_not_found_witness:
  "http_session example_bot = Some example_session
   \<and> servers (config example_bot) \<noteq> []
   \<and> \<not> UUID_REGEX_match ''Nope'' \<and> \<not> UUID_REGEX_match ''Ghost''
   \<and> mojang example_session ''Nope'' = Response 204 (Inl ValueError)
   \<and> mojang example_session ''Ghost'' = Response 200 (Inr (JDict [(''name'', JStr ''Ghost'')]))
   \<and> procurar example_bot [2, 0, 3, 1] ''Nope''
        = (Some (Inr PlayerNotFound), [DirectoryLookup ''Nope''])
   \<and> procurar example_bot [2, 0, 3, 1] ''Ghost''
        = (Some (Inr PlayerNotFound), [DirectoryLookup ''Ghost''])"
proof -
  have h: "http_session example_bot = Some example_session"
    by (simp add: example_bot_def)
  have s: "servers (config example_bot) \<noteq> []"
    by (simp add: example_bot_def example_targets_def)
  have n: "\<not> UUID_REGEX_match ''Nope''" and g: "\<not> UUID_REGEX_match ''Ghost''"
    by code_simp+
  have dn: "mojang example_session ''Nope'' = Response 204 (Inl ValueError)"
    by (simp add: example_session_def example_directory_def)
  have dg: "mojang example_session ''Ghost''
      = Response 200 (Inr (JDict [(''name'', JStr ''Ghost'')]))"
    by (simp add: example_session_def example_directory_def)
  have "(\<exists>body. mojang example_session ''Nope'' = Response 204 body)
      \<or> (\<exists>status kvs. mojang example_session ''Nope'' = Response status (Inr (JDict kvs))
            \<and> 200 \<le> status \<and> status < 300 \<and> map_of kvs ''id'' = None)"
    using dn by simp
  from procurar_not_found [OF h s n this, of "[2, 0, 3, 1]"]
  have rn: "procurar example_bot [2, 0, 3, 1] ''Nope''
        = (Some (Inr PlayerNotFound), [DirectoryLookup ''Nope''])"
    by (rule conjunct2)
  have "(\<exists>body. mojang example_session ''Ghost'' = Response 204 body)
      \<or> (\<exists>status kvs. mojang example_session ''Ghost'' = Response status (Inr (JDict kvs))
            \<and> 200 \<le> status \<and> status < 300 \<and> map_of kvs ''id'' = None)"
    using dg by simp
  from procurar_not_found [OF h s g this, of "[2, 0, 3, 1]"]
  have rg: "procurar example_bot [2, 0, 3, 1] ''Ghost''
        = (Some (Inr PlayerNotFound), [DirectoryLookup ''Ghost''])"
    by (rule conjunct2)
  from h s n g dn dg rn rg show ?thesis by (intro conjI)
qed

text \<open>
  C4. The command asks the directory service exactly when \<open>UUID_REGEX\<close> does not match the
  input, and \<open>UUID_REGEX\<close> matches more than the identifier format: 32 hexadecimal digits
  followed by a newline are not of the format, and yet are taken as an identifier, with
  no directory lookup among the requests.
\<close>

theorem procurar_newline_identifier:
  "\<not> is_canonical_id_format (''aaaaaaaaaaaaaaaaaaaaaaaaaaaaaaaa'' @ [CHR 0x0A])
   \<and> UUID_REGEX_match (''aaaaaaaaaaaaaaaaaaaaaaaaaaaaaaaa'' @ [CHR 0x0A])
   \<and> procurar example_bot [0, 1, 2, 3] (''aaaaaaaaaaaaaaaaaaaaaaaaaaaaaaaa'' @ [CHR 0x0A])
      = (Some (Inr NoMatchFound),
         [Probe (JStr ''a.example''), Probe (JStr ''b.example''), Probe (JStr ''c.example''),
          Probe (JStr ''d.example'')])"
  by code_simp

lemma procurar_lookup_iff:
  assumes "http_session b = Some session" "servers (config b) \<noteq> []"
  shows "DirectoryLookup jogador \<in> set (snd (procurar b order jogador))
    \<longleftrightarrow> \<not> (is_canonical_id_format jogador
          \<or> (\<exists>t. jogador = t @ [CHR 0x0A] \<and> is_canonical_id_format t))"
proof (cases "UUID_REGEX_match jogador")
  case True
  with assms have "snd (procurar b order jogador)
      = probes_issued (servers (config b)) (max_concurrency (config b))"
    by (simp add: procurar_def search_def)
  then have "DirectoryLookup jogador \<notin> set (snd (procurar b order jogador))"
    by (auto simp: probes_issued_def)
  with True show ?thesis by (simp add: UUID_REGEX_match_iff)
next
  case False
  with assms have "DirectoryLookup jogador \<in> set (snd (procurar b order jogador))"
    by (simp add: procurar_def split: sum.splits prod.splits)
  with False show ?thesis by (simp add: UUID_REGEX_match_iff)
qed

end
